theory Spec2Isabelle
  imports Main "HOL-Library.Word"
begin

section \<open>Browser objects used by the recorder component\<close>

text \<open>
  The component (\<^verbatim>\<open>App\<close>, first variant in \<^verbatim>\<open>src/unnamed/part_000\<close>, lines 190-658;
  the two later variants have the same handlers statement for statement, with shorter
  messages in the second) drives three kinds of browser objects: media tracks, media
  streams and one \<^verbatim>\<open>MediaRecorder\<close> per session. They are modelled by what the code
  observes of them.
\<close>

type_synonym byte = "8 word"

datatype track_kind = Video | Audio

record track =
  track_id :: nat
  kind :: track_kind

record media_stream =
  stream_id :: nat
  tracks :: "track list"

definition getTracks :: "media_stream \<Rightarrow> track list" where
  "getTracks s = tracks s"

definition getVideoTracks :: "media_stream \<Rightarrow> track list" where
  "getVideoTracks s = filter (\<lambda>t. kind t = Video) (tracks s)"

definition getAudioTracks :: "media_stream \<Rightarrow> track list" where
  "getAudioTracks s = filter (\<lambda>t. kind t = Audio) (tracks s)"

record blob =
  blob_data :: "byte list"
  blob_type :: string

definition blob_size :: "blob \<Rightarrow> nat" where
  "blob_size b = length (blob_data b)"

text \<open>\<^verbatim>\<open>new Blob(chunks, { type })\<close>: the concatenation of the parts, tagged with the type.\<close>

definition new_Blob :: "blob list \<Rightarrow> string \<Rightarrow> blob" where
  "new_Blob parts ty = \<lparr>blob_data = concat (map blob_data parts), blob_type = ty\<rparr>"

text \<open>\<^verbatim>\<open>URL.createObjectURL(blob)\<close>: an opaque handle on the blob.\<close>

datatype object_url = ObjectURL blob

datatype recorder_state = Inactive | Recording | Paused

text \<open>
  One \<^verbatim>\<open>MediaRecorder\<close> together with the locals of the \<^verbatim>\<open>startRecording\<close> call that
  created it and that its handlers close over: \<^verbatim>\<open>combinedStream\<close> (also the
  constructor's stream), \<^verbatim>\<open>mimeType\<close> (also the constructor's option) and the
  \<^verbatim>\<open>chunks\<close> array. \<open>rec_stop_calls\<close> and \<open>rec_start_calls\<close> count the calls of
  \<^verbatim>\<open>stop()\<close> and \<^verbatim>\<open>start()\<close> on the object.
\<close>

record recorder =
  rec_state :: recorder_state
  rec_stream :: media_stream
  rec_mimeType :: string
  rec_chunks :: "blob list"
  rec_start_calls :: nat
  rec_stop_calls :: nat

section \<open>Component state\<close>

text \<open>
  The nine \<^verbatim>\<open>useState\<close> cells of \<^verbatim>\<open>App\<close> (lines 192-202). \<open>mediaRecorder\<close> holds
  a reference (an index into \<open>recorders\<close> below), \<^verbatim>\<open>null\<close> is \<open>None\<close>.
\<close>

record app =
  isRecording :: bool
  mediaRecorder :: "nat option"
  recordedChunks :: "blob list"
  recordingUrl :: "object_url option"
  uploadStatus :: string
  refreshKey :: nat
  recordingTime :: int
  stream :: "media_stream option"
  error :: string

text \<open>
  The world a handler runs in: the current values of the state cells, the recorder
  objects, the number of \<^verbatim>\<open>stop()\<close> calls each track has received, and
  \<^verbatim>\<open>videoRef.current\<close> (\<open>None\<close> when no preview element is mounted, otherwise its
  \<^verbatim>\<open>srcObject\<close>).

  A \<^verbatim>\<open>setX(v)\<close> call writes the cell in the world. A handler \<^emph>\<open>reads\<close> a cell through
  the \<^verbatim>\<open>const\<close> binding of the render that created the handler, so every handler takes
  that render's values as a separate argument \<open>env :: app\<close>; \<open>render w\<close> is the
  snapshot a handler created by a render of world \<open>w\<close> closes over. Functional updates
  (\<^verbatim>\<open>setRecordingTime(prev => ...)\<close>) and reads of object fields
  (\<^verbatim>\<open>mediaRecorder.state\<close>) see the world.
\<close>

record world = app +
  recorders :: "nat \<rightharpoonup> recorder"
  next_object :: nat
  stop_calls :: "nat \<Rightarrow> nat"
  videoRef :: "media_stream option option"

definition render :: "world \<Rightarrow> app" where
  "render w = \<lparr>isRecording = isRecording w, mediaRecorder = mediaRecorder w,
     recordedChunks = recordedChunks w, recordingUrl = recordingUrl w,
     uploadStatus = uploadStatus w, refreshKey = refreshKey w,
     recordingTime = recordingTime w, stream = stream w, error = error w\<rparr>"

text \<open>The initial render: the \<^verbatim>\<open>useState\<close> initial values, no objects yet.\<close>

definition initial :: world where
  "initial = \<lparr>isRecording = False, mediaRecorder = None, recordedChunks = [],
     recordingUrl = None, uploadStatus = [], refreshKey = 0, recordingTime = 0,
     stream = None, error = [], recorders = Map.empty, next_object = 0,
     stop_calls = (\<lambda>_. 0), videoRef = None\<rparr>"

definition MAX_RECORDING_TIME :: int where
  "MAX_RECORDING_TIME = 180"

section \<open>Stopping\<close>

text \<open>\<^verbatim>\<open>track.stop()\<close> on each track of a list, in order (\<^verbatim>\<open>forEach\<close>).\<close>

fun stop_tracks :: "track list \<Rightarrow> world \<Rightarrow> world" where
  "stop_tracks [] w = w"
| "stop_tracks (t # ts) w =
     stop_tracks ts (w\<lparr>stop_calls := (stop_calls w)(track_id t := stop_calls w (track_id t) + 1)\<rparr>)"

text \<open>
  \<^verbatim>\<open>recorder.stop()\<close> on recorder \<open>r\<close>: the object becomes inactive; the browser fires
  its \<^verbatim>\<open>stop\<close> event later (handler \<open>onstop\<close> below).
\<close>

definition recorder_stop :: "nat \<Rightarrow> world \<Rightarrow> world" where
  "recorder_stop r w =
     (case recorders w r of
        None \<Rightarrow> w
      | Some rc \<Rightarrow> w\<lparr>recorders := (recorders w)(r \<mapsto>
          rc\<lparr>rec_state := Inactive, rec_stop_calls := rec_stop_calls rc + 1\<rparr>)\<rparr>)"

text \<open>
  \<^verbatim>\<open>stopRecording\<close> (lines 389-408). \<^verbatim>\<open>mediaRecorder\<close> and \<^verbatim>\<open>stream\<close> are read
  from the closure, \<^verbatim>\<open>mediaRecorder.state\<close> from the object.
\<close>

definition stopRecording :: "app \<Rightarrow> world \<Rightarrow> world" where
  "stopRecording env w =
     (let w1 = (case mediaRecorder env of
                  None \<Rightarrow> w
                | Some r \<Rightarrow>
                    (case recorders w r of
                       None \<Rightarrow> w
                     | Some rc \<Rightarrow> if rec_state rc = Recording then recorder_stop r w else w));
          w2 = w1\<lparr>isRecording := False\<rparr>;
          w3 = (case stream env of
                  None \<Rightarrow> w2
                | Some s \<Rightarrow> (stop_tracks (getTracks s) w2)\<lparr>stream := None\<rparr>)
      in (case videoRef w3 of
            None \<Rightarrow> w3
          | Some _ \<Rightarrow> w3\<lparr>videoRef := Some None\<rparr>))"

section \<open>The timer\<close>

text \<open>
  One firing of the interval callback of the timer effect (lines 213-222): the updater
  passed to \<^verbatim>\<open>setRecordingTime\<close> receives the current counter; \<^verbatim>\<open>stopRecording\<close> is
  the one of the render in which the effect ran, so it reads \<open>env\<close>.
\<close>

definition tick :: "app \<Rightarrow> world \<Rightarrow> world" where
  "tick env w =
     (let prevTime = recordingTime w;
          newTime = prevTime + 1
      in if newTime \<ge> MAX_RECORDING_TIME
         then (stopRecording env w)\<lparr>recordingTime := MAX_RECORDING_TIME\<rparr>
         else w\<lparr>recordingTime := newTime\<rparr>)"

section \<open>Starting\<close>

datatype js_error = Error string

fun message :: "js_error \<Rightarrow> string" where
  "message (Error m) = m"

text \<open>
  What the browser answers during one \<^verbatim>\<open>startRecording\<close> call:
  whether \<^verbatim>\<open>navigator.mediaDevices.getDisplayMedia\<close> exists, what the two acquisition
  promises settle to (rejected with an error, or fulfilled with a stream), which MIME
  types \<^verbatim>\<open>MediaRecorder.isTypeSupported\<close> accepts, and the message of the
  \<^verbatim>\<open>TypeError\<close> raised by an assignment to a property of \<^verbatim>\<open>undefined\<close>.
  The \<^verbatim>\<open>MediaStream\<close> and \<^verbatim>\<open>MediaRecorder\<close> constructors and \<^verbatim>\<open>recorder.start\<close>
  are taken not to throw once the MIME type has been accepted.
\<close>

record platform =
  hasGetDisplayMedia :: bool
  getDisplayMedia :: "js_error + media_stream"
  getUserMedia :: "js_error + media_stream"
  isTypeSupported :: "string \<Rightarrow> bool"
  undefinedMessage :: string

definition vp9 :: string where
  "vp9 = ''video/webm;codecs=vp9''"

definition webm :: string where
  "webm = ''video/webm''"

text \<open>The reset block, lines 254-258.\<close>

definition startRecording_reset :: "world \<Rightarrow> world" where
  "startRecording_reset w =
     w\<lparr>recordedChunks := [], recordingUrl := None, recordingTime := 0,
       uploadStatus := [], error := []\<rparr>"

text \<open>The \<^verbatim>\<open>catch\<close> block, lines 377-386; \<^verbatim>\<open>stream\<close> is the closure's.\<close>

definition startRecording_catch :: "app \<Rightarrow> js_error \<Rightarrow> world \<Rightarrow> world" where
  "startRecording_catch env e w =
     (let w1 = w\<lparr>error := ''Failed to start recording: '' @ message e\<rparr>
      in case stream env of
           None \<Rightarrow> w1
         | Some s \<Rightarrow> (stop_tracks (getTracks s) w1)\<lparr>stream := None\<rparr>)"

text \<open>
  \<^verbatim>\<open>new MediaStream(trackList)\<close> and \<^verbatim>\<open>new MediaRecorder(stream, { mimeType, ... })\<close>
  allocate a fresh object; the recorder starts inactive with an empty \<^verbatim>\<open>chunks\<close>.
\<close>

definition new_MediaStream :: "track list \<Rightarrow> world \<Rightarrow> media_stream \<times> world" where
  "new_MediaStream ts w =
     (\<lparr>stream_id = next_object w, tracks = ts\<rparr>, w\<lparr>next_object := next_object w + 1\<rparr>)"

definition new_MediaRecorder :: "media_stream \<Rightarrow> string \<Rightarrow> world \<Rightarrow> nat \<times> world" where
  "new_MediaRecorder s mimeType w =
     (next_object w,
      w\<lparr>recorders := (recorders w)(next_object w \<mapsto>
           \<lparr>rec_state = Inactive, rec_stream = s, rec_mimeType = mimeType,
            rec_chunks = [], rec_start_calls = 0, rec_stop_calls = 0\<rparr>),
        next_object := next_object w + 1\<rparr>)"

definition recorder_start :: "nat \<Rightarrow> world \<Rightarrow> world" where
  "recorder_start r w =
     (case recorders w r of
        None \<Rightarrow> w
      | Some rc \<Rightarrow> w\<lparr>recorders := (recorders w)(r \<mapsto>
          rc\<lparr>rec_state := Recording, rec_start_calls := rec_start_calls rc + 1\<rparr>)\<rparr>)"

text \<open>
  \<^verbatim>\<open>startRecording\<close> is \<^verbatim>\<open>async\<close>: it runs without interruption up to
  \<^verbatim>\<open>await getDisplayMedia\<close> (lines 252-266). \<open>startRecording_begin\<close> is that first
  stretch: \<open>Inl\<close> when the call has already ended in the \<^verbatim>\<open>catch\<close> block, \<open>Inr\<close> the
  world at the moment \<^verbatim>\<open>getDisplayMedia\<close> is called.
\<close>

definition startRecording_begin :: "app \<Rightarrow> platform \<Rightarrow> world \<Rightarrow> world + world" where
  "startRecording_begin env p w =
     (let w1 = startRecording_reset w
      in if \<not> hasGetDisplayMedia p
         then Inl (startRecording_catch env
                (Error ''Screen recording is not supported in this browser. Please use Chrome or Edge.'') w1)
         else Inr w1)"

text \<open>
  Lines 280-308: the stream given to the encoder. The microphone's rejection is caught
  by the inner \<^verbatim>\<open>try\<close> and leaves \<^verbatim>\<open>combinedStream = displayStream\<close>.
\<close>

definition combine :: "platform \<Rightarrow> media_stream \<Rightarrow> world \<Rightarrow> media_stream \<times> world" where
  "combine p displayStream w =
     (case getUserMedia p of
        Inl micError \<Rightarrow> (displayStream, w)
      | Inr micStream \<Rightarrow>
          (let audioTracks = getAudioTracks displayStream @ getAudioTracks micStream
           in new_MediaStream (getVideoTracks displayStream @ audioTracks) w))"

text \<open>Lines 310-320: the check, then the choice.\<close>

definition choose_mimeType :: "platform \<Rightarrow> js_error + string" where
  "choose_mimeType p =
     (if \<not> isTypeSupported p vp9 \<and> \<not> isTypeSupported p webm
      then Inl (Error ''WebM recording is not supported in this browser.'')
      else Inr (if isTypeSupported p vp9 then vp9 else webm))"

text \<open>
  Lines 266-375, from the settling of \<^verbatim>\<open>getDisplayMedia\<close> on. The handlers
  installed at lines 330-363 are the functions \<open>ondataavailable\<close>, \<open>onstop\<close>,
  \<open>onerror\<close> and \<open>onended\<close> below; \<^verbatim>\<open>getVideoTracks()[0]\<close> of a stream without video
  track is \<^verbatim>\<open>undefined\<close>, and the assignment to its \<^verbatim>\<open>onended\<close> throws.
\<close>

definition startRecording_acquire :: "app \<Rightarrow> platform \<Rightarrow> world \<Rightarrow> world" where
  "startRecording_acquire env p w1 =
     (case getDisplayMedia p of
        Inl e \<Rightarrow> startRecording_catch env e w1
      | Inr displayStream \<Rightarrow>
          (let (combinedStream, w2) = combine p displayStream w1;
               w3 = w2\<lparr>stream := Some combinedStream\<rparr>
           in case choose_mimeType p of
                Inl e \<Rightarrow> startRecording_catch env e w3
              | Inr mimeType \<Rightarrow>
                  (let (recorder, w4) = new_MediaRecorder combinedStream mimeType w3
                   in case getVideoTracks displayStream of
                        [] \<Rightarrow> startRecording_catch env (Error (undefinedMessage p)) w4
                      | _ # _ \<Rightarrow>
                          (let w5 = recorder_start recorder w4;
                               w6 = w5\<lparr>mediaRecorder := Some recorder\<rparr>;
                               w7 = w6\<lparr>isRecording := True\<rparr>
                           in case videoRef w7 of
                                None \<Rightarrow> w7
                              | Some _ \<Rightarrow> w7\<lparr>videoRef := Some (Some displayStream)\<rparr>))))"

definition startRecording :: "app \<Rightarrow> platform \<Rightarrow> world \<Rightarrow> world" where
  "startRecording env p w =
     (case startRecording_begin env p w of
        Inl w' \<Rightarrow> w'
      | Inr w1 \<Rightarrow> startRecording_acquire env p w1)"

section \<open>Handlers installed by \<^verbatim>\<open>startRecording\<close>\<close>

text \<open>\<^verbatim>\<open>recorder.ondataavailable\<close> (lines 330-334) for the recorder \<open>r\<close>.\<close>

definition ondataavailable :: "nat \<Rightarrow> blob \<Rightarrow> world \<Rightarrow> world" where
  "ondataavailable r data w =
     (case recorders w r of
        None \<Rightarrow> w
      | Some rc \<Rightarrow>
          if blob_size data > 0
          then w\<lparr>recorders := (recorders w)(r \<mapsto> rc\<lparr>rec_chunks := rec_chunks rc @ [data]\<rparr>)\<rparr>
          else w)"

text \<open>\<^verbatim>\<open>recorder.onstop\<close> (lines 336-349) for the recorder \<open>r\<close>.\<close>

definition onstop :: "nat \<Rightarrow> world \<Rightarrow> world" where
  "onstop r w =
     (case recorders w r of
        None \<Rightarrow> w
      | Some rc \<Rightarrow>
          (let blob = new_Blob (rec_chunks rc) (rec_mimeType rc);
               url = ObjectURL blob;
               w1 = w\<lparr>recordingUrl := Some url\<rparr>;
               w2 = w1\<lparr>recordedChunks := [blob]\<rparr>;
               w3 = stop_tracks (getTracks (rec_stream rc)) w2
           in w3\<lparr>stream := None\<rparr>))"

text \<open>
  \<^verbatim>\<open>recorder.onerror\<close> (lines 351-355) and the \<^verbatim>\<open>onended\<close> handler of the screen's
  video track (lines 358-363). Both are created inside \<^verbatim>\<open>startRecording\<close>, so
  \<^verbatim>\<open>isRecording\<close> and \<^verbatim>\<open>stopRecording\<close> are those of the render that created that
  \<^verbatim>\<open>startRecording\<close>: \<open>env\<close> is the \<open>env\<close> of the start.
\<close>

definition onerror :: "app \<Rightarrow> string \<Rightarrow> world \<Rightarrow> world" where
  "onerror env msg w = stopRecording env (w\<lparr>error := ''Recording error: '' @ msg\<rparr>)"

definition onended :: "app \<Rightarrow> world \<Rightarrow> world" where
  "onended env w = (if isRecording env then stopRecording env w else w)"

section \<open>The other handlers and effects\<close>

text \<open>
  The cleanup of the stream effect (lines 237-243). React runs it, with the \<^verbatim>\<open>stream\<close>
  of the previous render, when a render commits a different \<^verbatim>\<open>stream\<close>.
\<close>

definition stream_cleanup :: "app \<Rightarrow> world \<Rightarrow> world" where
  "stream_cleanup env w =
     (case stream env of None \<Rightarrow> w | Some s \<Rightarrow> stop_tracks (getTracks s) w)"

text \<open>\<^verbatim>\<open>clearRecording\<close>, lines 460-470.\<close>

definition clearRecording :: "world \<Rightarrow> world" where
  "clearRecording w =
     (let w1 = w\<lparr>recordingUrl := None, recordedChunks := [], uploadStatus := [],
                 error := [], recordingTime := 0\<rparr>
      in case videoRef w1 of None \<Rightarrow> w1 | Some _ \<Rightarrow> w1\<lparr>videoRef := Some None\<rparr>)"

section \<open>Uploading from the component\<close>

text \<open>
  How the promise of \<^verbatim>\<open>axios.post\<close> settles: no answer (network error), no answer
  within the 30 seconds, or an answer with its status. axios fulfils the promise for a status from 200
  to 299 and rejects it otherwise.
\<close>

datatype axios_outcome = NetworkError | Timeout | Responded nat

fun axios_resolves :: "axios_outcome \<Rightarrow> bool" where
  "axios_resolves (Responded status) = (200 \<le> status \<and> status < 300)"
| "axios_resolves _ = False"

text \<open>The blob \<^verbatim>\<open>handleUpload\<close> appends to the form: \<^verbatim>\<open>recordedChunks[0]\<close>.\<close>

definition upload_payload :: "app \<Rightarrow> blob option" where
  "upload_payload env = (case recordedChunks env of [] \<Rightarrow> None | b # _ \<Rightarrow> Some b)"

text \<open>
  \<^verbatim>\<open>handleUpload\<close> (lines 410-447), from the click to the settling of the request.
  The two \<^verbatim>\<open>setTimeout\<close> callbacks are \<open>clear_uploadStatus\<close>.
\<close>

definition handleUpload :: "app \<Rightarrow> axios_outcome \<Rightarrow> world \<Rightarrow> world" where
  "handleUpload env outcome w =
     (if length (recordedChunks env) = 0 then w
      else
        (let w1 = w\<lparr>uploadStatus := ''uploading''\<rparr>
         in if axios_resolves outcome
            then (let w2 = w1\<lparr>uploadStatus := ''success''\<rparr>
                  in w2\<lparr>refreshKey := refreshKey w2 + 1\<rparr>)
            else w1\<lparr>uploadStatus := ''error''\<rparr>))"

definition clear_uploadStatus :: "world \<Rightarrow> world" where
  "clear_uploadStatus w = w\<lparr>uploadStatus := []\<rparr>"

section \<open>Sessions\<close>

text \<open>
  Every world the component can be in: the initial one, and the result of any handler
  or effect, whatever render it was created in.
\<close>

inductive reachable :: "world \<Rightarrow> bool" where
  r_initial: "reachable initial"
| r_start: "reachable w \<Longrightarrow> reachable (startRecording env p w)"
| r_stop: "reachable w \<Longrightarrow> reachable (stopRecording env w)"
| r_tick: "reachable w \<Longrightarrow> reachable (tick env w)"
| r_data: "reachable w \<Longrightarrow> reachable (ondataavailable r d w)"
| r_onstop: "reachable w \<Longrightarrow> reachable (onstop r w)"
| r_onerror: "reachable w \<Longrightarrow> reachable (onerror env msg w)"
| r_onended: "reachable w \<Longrightarrow> reachable (onended env w)"
| r_cleanup: "reachable w \<Longrightarrow> reachable (stream_cleanup env w)"
| r_clear: "reachable w \<Longrightarrow> reachable (clearRecording w)"
| r_upload: "reachable w \<Longrightarrow> reachable (handleUpload env outcome w)"
| r_status: "reachable w \<Longrightarrow> reachable (clear_uploadStatus w)"

text \<open>
  The device tracks a \<^verbatim>\<open>startRecording\<close> call acquires: those of the stream
  \<^verbatim>\<open>getDisplayMedia\<close> returned and, when \<^verbatim>\<open>getUserMedia\<close> is reached and fulfilled,
  those of the microphone stream.
\<close>

definition acquired :: "platform \<Rightarrow> track list" where
  "acquired p =
     (if \<not> hasGetDisplayMedia p then []
      else case getDisplayMedia p of
             Inl _ \<Rightarrow> []
           | Inr displayStream \<Rightarrow>
               getTracks displayStream @
               (case getUserMedia p of Inl _ \<Rightarrow> [] | Inr micStream \<Rightarrow> getTracks micStream))"

text \<open>
  React commits a render after the world has gone from \<open>prev\<close> to \<open>w\<close>: when the
  \<^verbatim>\<open>stream\<close> cell has changed, it runs the stream effect's cleanup of the previous
  render.
\<close>

definition commit :: "world \<Rightarrow> world \<Rightarrow> world" where
  "commit prev w = (if stream w \<noteq> stream prev then stream_cleanup (render prev) w else w)"

text \<open>
  What follows a handler that took the world from \<open>prev\<close> to \<open>w\<close>: React commits the
  render; then, when the recorder of the \<^verbatim>\<open>mediaRecorder\<close> cell was recording before
  and is inactive now (stopped by the handler, or failed), the browser fires that
  recorder's \<^verbatim>\<open>stop\<close> event, and React commits again. The last
  \<^verbatim>\<open>dataavailable\<close> event the browser fires before \<^verbatim>\<open>stop\<close> is an
  \<open>ondataavailable\<close> of its own.
\<close>

definition settle :: "world \<Rightarrow> world \<Rightarrow> world" where
  "settle prev w =
     (let w1 = commit prev w
      in case mediaRecorder prev of
           None \<Rightarrow> w1
         | Some r \<Rightarrow>
             (case (recorders prev r, recorders w1 r) of
                (Some rb, Some ra) \<Rightarrow>
                  if rec_state rb = Recording \<and> rec_state ra = Inactive
                  then commit w1 (onstop r w1) else w1
              | _ \<Rightarrow> w1))"

text \<open>
  An encoder failure, as the browser handles it (MediaStream Recording): it inactivates
  the recorder, without any \<^verbatim>\<open>stop()\<close> call of the page, then fires \<^verbatim>\<open>error\<close>,
  and after it \<^verbatim>\<open>dataavailable\<close> and \<^verbatim>\<open>stop\<close>. \<open>recorder_fail\<close> is the first step,
  on the recorder of the \<^verbatim>\<open>mediaRecorder\<close> cell.
\<close>

definition recorder_fail :: "world \<Rightarrow> world" where
  "recorder_fail w =
     (case mediaRecorder w of
        None \<Rightarrow> w
      | Some r \<Rightarrow>
          (case recorders w r of
             None \<Rightarrow> w
           | Some rc \<Rightarrow> w\<lparr>recorders := (recorders w)(r \<mapsto> rc\<lparr>rec_state := Inactive\<rparr>)\<rparr>))"

text \<open>
  The four ways out of a running session, from the world \<open>w\<close> it is in. The Stop button
  calls the \<^verbatim>\<open>stopRecording\<close> of the current render; the interval callback the one of
  the render that ran the timer effect (\<open>env1\<close>); the \<^verbatim>\<open>onended\<close> and
  \<^verbatim>\<open>onerror\<close> handlers the one of the render that created \<^verbatim>\<open>startRecording\<close>
  (\<open>env0\<close>). On an encoder error the recorder is already inactive when \<^verbatim>\<open>onerror\<close>
  runs, and its \<^verbatim>\<open>stop\<close> event follows.
\<close>

definition exit_manual :: "world \<Rightarrow> world" where
  "exit_manual w = settle w (stopRecording (render w) w)"

definition exit_timeout :: "app \<Rightarrow> world \<Rightarrow> world" where
  "exit_timeout env1 w = settle w (tick env1 w)"

definition exit_revoked :: "app \<Rightarrow> world \<Rightarrow> world" where
  "exit_revoked env0 w = settle w (onended env0 w)"

definition exit_error :: "app \<Rightarrow> string \<Rightarrow> world \<Rightarrow> world" where
  "exit_error env0 msg w = settle w (onerror env0 msg (recorder_fail w))"

text \<open>The recorder object the \<^verbatim>\<open>mediaRecorder\<close> cell refers to.\<close>

definition the_recorder :: "world \<Rightarrow> recorder option" where
  "the_recorder w = (case mediaRecorder w of None \<Rightarrow> None | Some r \<Rightarrow> recorders w r)"

text \<open>Whether \<^verbatim>\<open>stopRecording\<close> of a render finds an encoder to stop.\<close>

definition encoder_active :: "app \<Rightarrow> world \<Rightarrow> bool" where
  "encoder_active env w =
     (case mediaRecorder env of
        None \<Rightarrow> False
      | Some r \<Rightarrow> (case recorders w r of None \<Rightarrow> False | Some rc \<Rightarrow> rec_state rc = Recording))"

text \<open>A browser with a screen of one video and one audio track, and a microphone.\<close>

definition screen :: media_stream where
  "screen = \<lparr>stream_id = 100,
     tracks = [\<lparr>track_id = 1, kind = Video\<rparr>, \<lparr>track_id = 2, kind = Audio\<rparr>]\<rparr>"

definition microphone :: media_stream where
  "microphone = \<lparr>stream_id = 101, tracks = [\<lparr>track_id = 3, kind = Audio\<rparr>]\<rparr>"

definition chrome :: platform where
  "chrome = \<lparr>hasGetDisplayMedia = True, getDisplayMedia = Inr screen,
     getUserMedia = Inr microphone, isTypeSupported = (\<lambda>t. t = vp9 \<or> t = webm),
     undefinedMessage = ''Cannot set properties of undefined''\<rparr>"

text \<open>The same browser with the microphone refused.\<close>

definition no_microphone :: platform where
  "no_microphone = chrome\<lparr>getUserMedia := Inl (Error ''Permission denied'')\<rparr>"

text \<open>A browser whose encoder knows neither of the two MIME types.\<close>

definition no_webm :: platform where
  "no_webm = chrome\<lparr>isTypeSupported := (\<lambda>t. False)\<rparr>"

text \<open>The session started in that browser from the initial render.\<close>

definition running :: world where
  "running = startRecording (render initial) chrome initial"

text \<open>One second of encoder output, and the session above stopped by hand after it.\<close>

definition chunk :: blob where
  "chunk = \<lparr>blob_data = [1, 2, 3], blob_type = vp9\<rparr>"

definition recorded :: world where
  "recorded = exit_manual (ondataavailable 1 chunk running)"

section \<open>The storage server\<close>

text \<open>
  The Express server (\<^verbatim>\<open>src/unnamed/part_000\<close>, lines 1-181). Its collaborators are
  modelled by what the handlers use of them: the uploads directory as a map from file
  name to content, the \<^verbatim>\<open>recordings\<close> table (lines 53-61) as its rows in insertion
  order with the \<^verbatim>\<open>AUTO_INCREMENT\<close> counter, and whether the database answers.
\<close>

record recording_row =
  row_id :: nat
  filename :: string
  size_col :: nat
  created_at :: nat
  updated_at :: nat

record server =
  uploads :: "string \<rightharpoonup> byte list"
  recordings :: "recording_row list"
  auto_increment :: nat
  db_up :: bool

datatype body =
    Message string
  | Uploaded string nat
  | Rows "recording_row list"
  | Stream string "byte list"

record http_response =
  http_status :: nat
  http_body :: body

text \<open>
  One upload request: the file of the multipart field \<^verbatim>\<open>video\<close> if there is one, and
  the values of \<^verbatim>\<open>Date.now()\<close>, \<^verbatim>\<open>Math.round(Math.random() * 1E9)\<close> and
  \<^verbatim>\<open>CURRENT_TIMESTAMP\<close> while it is served.
\<close>

record upload_request =
  video :: "byte list option"
  date_now :: nat
  random_1e9 :: nat
  current_timestamp :: nat

fun string_of_nat :: "nat \<Rightarrow> string" where
  "string_of_nat n =
     (if n < 10 then [''0123456789'' ! n]
      else string_of_nat (n div 10) @ [''0123456789'' ! (n mod 10)])"

text \<open>The \<^verbatim>\<open>filename\<close> callback of the disk storage, lines 79-82.\<close>

definition multer_filename :: "upload_request \<Rightarrow> string" where
  "multer_filename req =
     (let uniqueSuffix = string_of_nat (date_now req) @ ''-'' @ string_of_nat (random_1e9 req)
      in ''video'' @ ''-'' @ uniqueSuffix @ ''.webm'')"

definition fileSize_limit :: nat where
  "fileSize_limit = 100 * 1024 * 1024"

text \<open>
  \<^verbatim>\<open>INSERT INTO recordings (filename, size) VALUES (?, ?)\<close>: the new row takes the
  counter as its \<^verbatim>\<open>id\<close>; the statement fails when the database does not answer or the
  primary key is taken.
\<close>

definition db_insert :: "string \<Rightarrow> nat \<Rightarrow> nat \<Rightarrow> server \<Rightarrow> (nat \<times> server) option" where
  "db_insert fname sz ts srv =
     (if \<not> db_up srv \<or> auto_increment srv \<in> set (map row_id (recordings srv)) then None
      else Some (auto_increment srv,
        srv\<lparr>recordings := recordings srv @
               [\<lparr>row_id = auto_increment srv, filename = fname, size_col = sz,
                 created_at = ts, updated_at = ts\<rparr>],
            auto_increment := auto_increment srv + 1\<rparr>))"

text \<open>
  \<^verbatim>\<open>POST /api/recordings\<close> (lines 102-124) behind \<^verbatim>\<open>upload.single('video')\<close>
  (lines 75-88): multer writes the file under the generated name, or refuses one over
  the limit, before the handler runs. A refusal never reaches the handler; Express
  answers it with status 500 (the text of that answer is not modelled).
\<close>

definition post_recordings :: "upload_request \<Rightarrow> server \<Rightarrow> http_response \<times> server" where
  "post_recordings req srv =
     (case video req of
        None \<Rightarrow> (\<lparr>http_status = 400, http_body = Message ''No file uploaded.''\<rparr>, srv)
      | Some content \<Rightarrow>
          if length content > fileSize_limit
          then (\<lparr>http_status = 500, http_body = Message ''File too large''\<rparr>, srv)
          else
            (let fname = multer_filename req;
                 sz = length content;
                 srv1 = srv\<lparr>uploads := (uploads srv)(fname \<mapsto> content)\<rparr>
             in case db_insert fname sz (current_timestamp req) srv1 of
                  None \<Rightarrow>
                    (\<lparr>http_status = 500, http_body = Message ''Failed to save recording.''\<rparr>, srv1)
                | Some (insertId, srv2) \<Rightarrow>
                    (\<lparr>http_status = 201,
                      http_body = Uploaded ''File uploaded successfully!'' insertId\<rparr>, srv2)))"

text \<open>
  \<^verbatim>\<open>GET /api/recordings\<close> (lines 127-137). Rows with equal \<^verbatim>\<open>created_at\<close> come in the
  reverse of their insertion order here; MySQL leaves their order open.
\<close>

definition get_recordings :: "server \<Rightarrow> http_response" where
  "get_recordings srv =
     (if \<not> db_up srv
      then \<lparr>http_status = 500, http_body = Message ''Failed to fetch recordings.''\<rparr>
      else \<lparr>http_status = 200, http_body = Rows (rev (sort_key created_at (recordings srv)))\<rparr>)"

text \<open>\<^verbatim>\<open>GET /api/recordings/:id\<close> (lines 140-165).\<close>

definition get_recording :: "nat \<Rightarrow> server \<Rightarrow> http_response" where
  "get_recording ident srv =
     (if \<not> db_up srv
      then \<lparr>http_status = 500, http_body = Message ''Failed to stream recording.''\<rparr>
      else case filter (\<lambda>r. row_id r = ident) (recordings srv) of
             [] \<Rightarrow> \<lparr>http_status = 404, http_body = Message ''Recording not found.''\<rparr>
           | recording # _ \<Rightarrow>
               (case uploads srv (filename recording) of
                  None \<Rightarrow> \<lparr>http_status = 404, http_body = Message ''File not found.''\<rparr>
                | Some content \<Rightarrow>
                    \<lparr>http_status = 200, http_body = Stream ''video/webm'' content\<rparr>))"

text \<open>The server just after its start, and the upload of the three bytes of \<open>chunk\<close>.\<close>

definition fresh_server :: server where
  "fresh_server = \<lparr>uploads = Map.empty, recordings = [], auto_increment = 1, db_up = True\<rparr>"

definition upload_of_chunk :: upload_request where
  "upload_of_chunk = \<lparr>video = Some (blob_data chunk), date_now = 1700000000000,
     random_1e9 = 123456789, current_timestamp = 1700000000\<rparr>"

section \<open>Facts about the handlers\<close>

lemma stop_tracks_eq:
  "stop_tracks ts w = w\<lparr>stop_calls := (\<lambda>i. stop_calls w i + count_list (map track_id ts) i)\<rparr>"
proof (induction ts arbitrary: w)
  case Nil
  then show ?case by simp
next
  case (Cons t ts)
  show ?case by (simp add: Cons.IH fun_eq_iff)
qed

lemma recordingTime_stopRecording: "recordingTime (stopRecording env w) = recordingTime w"
  by (simp add: stopRecording_def recorder_stop_def stop_tracks_eq Let_def split: option.splits)

lemma isRecording_stopRecording: "\<not> isRecording (stopRecording env w)"
  by (simp add: stopRecording_def recorder_stop_def stop_tracks_eq Let_def split: option.splits)

lemma recordingTime_catch: "recordingTime (startRecording_catch env e w) = recordingTime w"
  by (simp add: startRecording_catch_def stop_tracks_eq Let_def split: option.splits)

lemma recordingTime_acquire: "recordingTime (startRecording_acquire env p w) = recordingTime w"
  by (simp add: startRecording_acquire_def combine_def new_MediaStream_def new_MediaRecorder_def
      recorder_start_def recordingTime_catch Let_def
      split: sum.splits option.splits list.splits prod.splits)

lemma recordingTime_startRecording: "recordingTime (startRecording env p w) = 0"
  by (simp add: startRecording_def startRecording_begin_def startRecording_reset_def
      recordingTime_catch recordingTime_acquire Let_def)

lemma recordingTime_tick_upper: "recordingTime (tick env w) \<le> MAX_RECORDING_TIME"
  by (simp add: tick_def Let_def)

lemma recordingTime_tick_lower: "0 \<le> recordingTime w \<Longrightarrow> 0 \<le> recordingTime (tick env w)"
  by (simp add: tick_def Let_def MAX_RECORDING_TIME_def)

lemma recordingTime_others:
  "recordingTime (ondataavailable r d w) = recordingTime w"
  "recordingTime (onstop r w) = recordingTime w"
  "recordingTime (onerror env msg w) = recordingTime w"
  "recordingTime (onended env w) = recordingTime w"
  "recordingTime (stream_cleanup env w) = recordingTime w"
  "recordingTime (clearRecording w) = 0"
  "recordingTime (handleUpload env outcome w) = recordingTime w"
  "recordingTime (clear_uploadStatus w) = recordingTime w"
  by (simp_all add: ondataavailable_def onstop_def onerror_def onended_def stream_cleanup_def
      clearRecording_def handleUpload_def clear_uploadStatus_def stop_tracks_eq
      recordingTime_stopRecording Let_def split: option.splits)

lemma reachable_recordingTime:
  "reachable w \<Longrightarrow> 0 \<le> recordingTime w \<and> recordingTime w \<le> MAX_RECORDING_TIME"
proof (induction rule: reachable.induct)
  case r_initial
  show ?case by (simp add: initial_def MAX_RECORDING_TIME_def)
next
  case (r_start w env p)
  show ?case by (simp add: recordingTime_startRecording MAX_RECORDING_TIME_def)
next
  case (r_tick w env)
  then show ?case by (simp add: recordingTime_tick_upper recordingTime_tick_lower)
next
  case (r_clear w)
  show ?case by (simp add: recordingTime_others MAX_RECORDING_TIME_def)
qed (simp_all add: recordingTime_others recordingTime_stopRecording)

section \<open>The three-minute ceiling\<close>

text \<open>
  Claim C1. In every world the component can reach, \<^verbatim>\<open>recordingTime\<close> is at most 180.
  A firing of the interval callback never leaves it above 180; the firing that takes it
  to 180 (or would take it past) calls \<^verbatim>\<open>stopRecording\<close> and stores exactly 180, so
  \<^verbatim>\<open>isRecording\<close> is false after that same firing; any earlier firing adds one.
\<close>

theorem timer_ceiling:
  "(reachable w \<longrightarrow> recordingTime w \<le> 180)
   \<and> recordingTime (tick env s) \<le> 180
   \<and> (recordingTime s + 1 \<ge> 180 \<longrightarrow>
        tick env s = (stopRecording env s)\<lparr>recordingTime := 180\<rparr>
        \<and> recordingTime (tick env s) = 180
        \<and> \<not> isRecording (tick env s))
   \<and> (recordingTime s + 1 < 180 \<longrightarrow> tick env s = s\<lparr>recordingTime := recordingTime s + 1\<rparr>)"
  using reachable_recordingTime [of w] recordingTime_tick_upper [of env s]
  by (simp add: tick_def Let_def MAX_RECORDING_TIME_def isRecording_stopRecording)

lemmas start_defs = startRecording_def startRecording_begin_def startRecording_reset_def
  startRecording_acquire_def startRecording_catch_def combine_def choose_mimeType_def
  new_MediaStream_def new_MediaRecorder_def recorder_start_def getTracks_def
  getVideoTracks_def getAudioTracks_def vp9_def webm_def Let_def

lemma running_eq:
  "running = \<lparr>isRecording = True, mediaRecorder = Some 1, recordedChunks = [],
     recordingUrl = None, uploadStatus = [], refreshKey = 0, recordingTime = 0,
     stream = Some \<lparr>stream_id = 0, tracks = [\<lparr>track_id = 1, kind = Video\<rparr>,
       \<lparr>track_id = 2, kind = Audio\<rparr>, \<lparr>track_id = 3, kind = Audio\<rparr>]\<rparr>,
     error = [],
     recorders = [1 \<mapsto> \<lparr>rec_state = Recording,
       rec_stream = \<lparr>stream_id = 0, tracks = [\<lparr>track_id = 1, kind = Video\<rparr>,
         \<lparr>track_id = 2, kind = Audio\<rparr>, \<lparr>track_id = 3, kind = Audio\<rparr>]\<rparr>,
       rec_mimeType = ''video/webm;codecs=vp9'', rec_chunks = [],
       rec_start_calls = 1, rec_stop_calls = 0\<rparr>],
     next_object = 2, stop_calls = (\<lambda>_. 0), videoRef = None\<rparr>"
  by (simp add: running_def start_defs chrome_def screen_def microphone_def initial_def render_def)

theorem timer_ceiling_witness:
  "reachable running
   \<and> recordingTime running \<le> 180
   \<and> isRecording (running\<lparr>recordingTime := 179\<rparr>)
   \<and> recordingTime (running\<lparr>recordingTime := 179\<rparr>) + 1 \<ge> 180
   \<and> recordingTime (tick (render running) (running\<lparr>recordingTime := 179\<rparr>)) = 180
   \<and> \<not> isRecording (tick (render running) (running\<lparr>recordingTime := 179\<rparr>))
   \<and> recordingTime running + 1 < 180
   \<and> tick (render running) running = running\<lparr>recordingTime := recordingTime running + 1\<rparr>"
proof -
  have r: "reachable running"
    unfolding running_def by (rule r_start [OF r_initial])
  have a: "recordingTime (running\<lparr>recordingTime := 179\<rparr>) + 1 \<ge> 180"
    by simp
  have b: "recordingTime running + 1 < 180"
    by (simp add: running_eq)
  have i: "isRecording (running\<lparr>recordingTime := 179\<rparr>)"
    by (simp add: running_eq)
  note T = timer_ceiling [of running "render running" "running\<lparr>recordingTime := 179\<rparr>"]
  note U = timer_ceiling [of running "render running" running]
  from T r have c1: "recordingTime running \<le> 180" by blast
  from T a have c2: "recordingTime (tick (render running) (running\<lparr>recordingTime := 179\<rparr>)) = 180"
    by blast
  from T a have c3: "\<not> isRecording (tick (render running) (running\<lparr>recordingTime := 179\<rparr>))"
    by blast
  from U b have c4: "tick (render running) running = running\<lparr>recordingTime := recordingTime running + 1\<rparr>"
    by blast
  from r c1 i a c2 c3 b c4 show ?thesis by blast
qed

section \<open>Stopping with nothing to stop\<close>

text \<open>
  Claim C10. When the \<^verbatim>\<open>stopRecording\<close> of a render finds no encoder in the
  \<^verbatim>\<open>recording\<close> state (\<^verbatim>\<open>mediaRecorder\<close> is null, or its state is something else) and
  its \<^verbatim>\<open>stream\<close> is null, the call stops no encoder and no track and leaves
  \<^verbatim>\<open>recordedChunks\<close>, \<^verbatim>\<open>recordingUrl\<close> and \<^verbatim>\<open>recordingTime\<close> as they were: all it does
  is to set \<^verbatim>\<open>isRecording\<close> to false and to empty the preview element if there is one.
\<close>

theorem stopRecording_idle:
  assumes "\<not> encoder_active env w" and "stream env = None"
  shows "recorders (stopRecording env w) = recorders w
    \<and> stop_calls (stopRecording env w) = stop_calls w
    \<and> recordedChunks (stopRecording env w) = recordedChunks w
    \<and> recordingUrl (stopRecording env w) = recordingUrl w
    \<and> recordingTime (stopRecording env w) = recordingTime w
    \<and> stopRecording env w =
        w\<lparr>isRecording := False, videoRef := map_option (\<lambda>_. None) (videoRef w)\<rparr>"
proof -
  have enc: "(case mediaRecorder env of
                None \<Rightarrow> w
              | Some r \<Rightarrow>
                  (case recorders w r of
                     None \<Rightarrow> w
                   | Some rc \<Rightarrow> if rec_state rc = Recording then recorder_stop r w else w)) = w"
    using assms(1) by (simp add: encoder_active_def split: option.splits)
  have eq: "stopRecording env w =
      w\<lparr>isRecording := False, videoRef := map_option (\<lambda>_. None) (videoRef w)\<rparr>"
    unfolding stopRecording_def enc using assms(2)
    by (cases "videoRef w") (simp_all add: Let_def)
  show ?thesis
    unfolding eq by simp
qed

theorem stopRecording_idle_witness:
  "\<not> encoder_active (render initial) initial \<and> stream (render initial) = None
   \<and> recorders (stopRecording (render initial) initial) = recorders initial
   \<and> stop_calls (stopRecording (render initial) initial) = stop_calls initial
   \<and> recordedChunks (stopRecording (render initial) initial) = recordedChunks initial
   \<and> recordingUrl (stopRecording (render initial) initial) = recordingUrl initial
   \<and> recordingTime (stopRecording (render initial) initial) = recordingTime initial"
proof -
  have a: "\<not> encoder_active (render initial) initial"
    by (simp add: encoder_active_def render_def initial_def)
  have b: "stream (render initial) = None"
    by (simp add: render_def initial_def)
  from stopRecording_idle [OF a b] a b show ?thesis by blast
qed

section \<open>The reset at the start\<close>

lemma catch_fields:
  "recordedChunks (startRecording_catch env e w) = recordedChunks w"
  "recordingUrl (startRecording_catch env e w) = recordingUrl w"
  "uploadStatus (startRecording_catch env e w) = uploadStatus w"
  "error (startRecording_catch env e w) = ''Failed to start recording: '' @ message e"
  by (simp_all add: startRecording_catch_def stop_tracks_eq Let_def split: option.splits)

lemma acquire_fields:
  "recordedChunks (startRecording_acquire env p w) = recordedChunks w"
  "recordingUrl (startRecording_acquire env p w) = recordingUrl w"
  "uploadStatus (startRecording_acquire env p w) = uploadStatus w"
  by (simp_all add: startRecording_acquire_def combine_def new_MediaStream_def
      new_MediaRecorder_def recorder_start_def catch_fields Let_def
      split: sum.splits option.splits list.splits prod.splits)

lemma reset_absorbs:
  "startRecording_reset (w\<lparr>recordedChunks := a, recordingUrl := b, recordingTime := c,
     uploadStatus := d, error := e\<rparr>) = startRecording_reset w"
  by (simp add: startRecording_reset_def)

text \<open>
  Claim C5. When \<^verbatim>\<open>startRecording\<close> reaches the call of \<^verbatim>\<open>getDisplayMedia\<close>, the
  chunks are empty, the URL is null, the time is 0 and the upload status and the error
  are empty, whatever they were; when it ends before that call, the same holds except
  that the error is this start's failure message. At the end of the call the chunks,
  the URL, the time and the upload status are still the reset values, and nothing of
  the result depends on what the five cells held before.
\<close>

theorem startRecording_resets:
  "(case startRecording_begin env p w of
      Inr w1 \<Rightarrow> recordedChunks w1 = [] \<and> recordingUrl w1 = None \<and> recordingTime w1 = 0
                \<and> uploadStatus w1 = [] \<and> error w1 = []
    | Inl w' \<Rightarrow> recordedChunks w' = [] \<and> recordingUrl w' = None \<and> recordingTime w' = 0
                \<and> uploadStatus w' = []
                \<and> error w' = ''Failed to start recording: Screen recording is not supported in this browser. Please use Chrome or Edge.'')
   \<and> recordedChunks (startRecording env p w) = []
   \<and> recordingUrl (startRecording env p w) = None
   \<and> recordingTime (startRecording env p w) = 0
   \<and> uploadStatus (startRecording env p w) = []
   \<and> startRecording env p (w\<lparr>recordedChunks := a, recordingUrl := b, recordingTime := c,
        uploadStatus := d, error := e\<rparr>) = startRecording env p w"
proof -
  have pre: "startRecording_begin env p (w\<lparr>recordedChunks := a, recordingUrl := b,
      recordingTime := c, uploadStatus := d, error := e\<rparr>) = startRecording_begin env p w"
    by (simp only: startRecording_begin_def reset_absorbs)
  have same: "startRecording env p (w\<lparr>recordedChunks := a, recordingUrl := b,
      recordingTime := c, uploadStatus := d, error := e\<rparr>) = startRecording env p w"
    by (simp only: startRecording_def pre)
  have at_await: "(case startRecording_begin env p w of
      Inr w1 \<Rightarrow> recordedChunks w1 = [] \<and> recordingUrl w1 = None \<and> recordingTime w1 = 0
                \<and> uploadStatus w1 = [] \<and> error w1 = []
    | Inl w' \<Rightarrow> recordedChunks w' = [] \<and> recordingUrl w' = None \<and> recordingTime w' = 0
                \<and> uploadStatus w' = []
                \<and> error w' = ''Failed to start recording: Screen recording is not supported in this browser. Please use Chrome or Edge.'')"
    by (simp add: startRecording_begin_def startRecording_reset_def catch_fields
        recordingTime_catch Let_def)
  have at_end: "recordedChunks (startRecording env p w) = []
      \<and> recordingUrl (startRecording env p w) = None
      \<and> uploadStatus (startRecording env p w) = []"
    by (simp add: startRecording_def startRecording_begin_def startRecording_reset_def
        catch_fields acquire_fields Let_def)
  from at_await at_end same recordingTime_startRecording [of env p w] show ?thesis by blast
qed

section \<open>A failed upload\<close>

text \<open>
  Claim C9. When the upload request fails (no answer, no answer in time, or a status
  outside 200-299), \<^verbatim>\<open>handleUpload\<close> leaves \<^verbatim>\<open>recordedChunks\<close> and \<^verbatim>\<open>recordingUrl\<close>
  as they were, so the next render offers the same blob for another upload; the only
  cell it changes is the upload status.
\<close>

theorem handleUpload_failure_keeps_artifact:
  assumes "\<not> axios_resolves outcome"
  shows "recordedChunks (handleUpload env outcome w) = recordedChunks w
    \<and> recordingUrl (handleUpload env outcome w) = recordingUrl w
    \<and> upload_payload (render (handleUpload env outcome w)) = upload_payload (render w)
    \<and> handleUpload env outcome w =
        (if recordedChunks env = [] then w else w\<lparr>uploadStatus := ''error''\<rparr>)"
  using assms
  by (simp add: handleUpload_def upload_payload_def render_def Let_def)

lemma recorded_eq:
  "recordedChunks recorded = [\<lparr>blob_data = [1, 2, 3], blob_type = vp9\<rparr>]"
  "recordingUrl recorded = Some (ObjectURL \<lparr>blob_data = [1, 2, 3], blob_type = vp9\<rparr>)"
  by (simp_all add: recorded_def exit_manual_def settle_def commit_def stopRecording_def recorder_stop_def
      stream_cleanup_def onstop_def ondataavailable_def chunk_def running_eq render_def
      stop_tracks_eq getTracks_def new_Blob_def blob_size_def vp9_def Let_def)

theorem handleUpload_failure_keeps_artifact_witness:
  "\<not> axios_resolves Timeout
   \<and> recordedChunks (handleUpload (render recorded) Timeout recorded) =
       [\<lparr>blob_data = [1, 2, 3], blob_type = vp9\<rparr>]
   \<and> recordingUrl (handleUpload (render recorded) Timeout recorded) =
       Some (ObjectURL \<lparr>blob_data = [1, 2, 3], blob_type = vp9\<rparr>)
   \<and> upload_payload (render (handleUpload (render recorded) Timeout recorded)) =
       Some \<lparr>blob_data = [1, 2, 3], blob_type = vp9\<rparr>
   \<and> uploadStatus (handleUpload (render recorded) Timeout recorded) = ''error''"
proof -
  have a: "\<not> axios_resolves Timeout" by simp
  note T = handleUpload_failure_keeps_artifact [OF a, of "render recorded" recorded]
  have p: "upload_payload (render recorded) = Some \<lparr>blob_data = [1, 2, 3], blob_type = vp9\<rparr>"
    by (simp add: upload_payload_def render_def recorded_eq)
  have n: "recordedChunks (render recorded) \<noteq> []"
    by (simp add: render_def recorded_eq)
  from T have t1: "recordedChunks (handleUpload (render recorded) Timeout recorded) =
      recordedChunks recorded" by blast
  from T have t2: "recordingUrl (handleUpload (render recorded) Timeout recorded) =
      recordingUrl recorded" by blast
  from T have t3: "upload_payload (render (handleUpload (render recorded) Timeout recorded)) =
      upload_payload (render recorded)" by blast
  from T have t4: "handleUpload (render recorded) Timeout recorded =
      (if recordedChunks (render recorded) = [] then recorded
       else recorded\<lparr>uploadStatus := ''error''\<rparr>)" by blast
  have u: "uploadStatus (handleUpload (render recorded) Timeout recorded) = ''error''"
    unfolding t4 using n by simp
  show ?thesis
    unfolding t1 t2 t3 u p recorded_eq using a by simp
qed

section \<open>A successful start\<close>

lemma choose_mimeType_mic [simp]:
  "choose_mimeType (p\<lparr>getUserMedia := x\<rparr>) = choose_mimeType p"
  by (simp add: choose_mimeType_def)

lemma combine_fields:
  "combine p ds w = (cs, w2) \<Longrightarrow>
     recorders w2 = recorders w \<and> stop_calls w2 = stop_calls w \<and> videoRef w2 = videoRef w
     \<and> error w2 = error w \<and> isRecording w2 = isRecording w
     \<and> mediaRecorder w2 = mediaRecorder w"
  by (auto simp add: combine_def new_MediaStream_def Let_def split: sum.splits)

lemma start_success:
  assumes "hasGetDisplayMedia p" and "getDisplayMedia p = Inr ds"
    and "getVideoTracks ds \<noteq> []" and "choose_mimeType p = Inr m"
    and "combine p ds (startRecording_reset w) = (cs, w2)"
  shows "startRecording env p w =
    w2\<lparr>stream := Some cs,
       recorders := (recorders w2)(next_object w2 \<mapsto>
         \<lparr>rec_state = Recording, rec_stream = cs, rec_mimeType = m, rec_chunks = [],
          rec_start_calls = 1, rec_stop_calls = 0\<rparr>),
       next_object := next_object w2 + 1,
       mediaRecorder := Some (next_object w2),
       isRecording := True,
       videoRef := map_option (\<lambda>_. Some ds) (videoRef w2)\<rparr>"
  using assms
  by (cases "videoRef w2")
     (simp_all add: startRecording_def startRecording_begin_def startRecording_acquire_def
      new_MediaRecorder_def recorder_start_def Let_def split: list.splits)

lemma start_success_fields:
  assumes "hasGetDisplayMedia p" and "getDisplayMedia p = Inr ds"
    and "getVideoTracks ds \<noteq> []" and "choose_mimeType p = Inr m"
    and "combine p ds (startRecording_reset w) = (cs, w2)"
  shows "isRecording (startRecording env p w)"
    and "error (startRecording env p w) = []"
    and "stream (startRecording env p w) = Some cs"
    and "the_recorder (startRecording env p w) =
      Some \<lparr>rec_state = Recording, rec_stream = cs, rec_mimeType = m, rec_chunks = [],
          rec_start_calls = 1, rec_stop_calls = 0\<rparr>"
    and "mediaRecorder (startRecording env p w) = Some (next_object w2)"
  using combine_fields [OF assms(5)]
  by (simp_all add: start_success [OF assms] the_recorder_def startRecording_reset_def)

lemma start_error:
  "error (startRecording env p w) =
     (if \<not> hasGetDisplayMedia p
      then ''Failed to start recording: Screen recording is not supported in this browser. Please use Chrome or Edge.''
      else case getDisplayMedia p of
             Inl e \<Rightarrow> ''Failed to start recording: '' @ message e
           | Inr ds \<Rightarrow>
               (case choose_mimeType p of
                  Inl e \<Rightarrow> ''Failed to start recording: '' @ message e
                | Inr m \<Rightarrow>
                    if getVideoTracks ds = []
                    then ''Failed to start recording: '' @ undefinedMessage p else []))"
proof (cases "hasGetDisplayMedia p")
  case False
  then show ?thesis
    by (simp add: startRecording_def startRecording_begin_def catch_fields Let_def)
next
  case has: True
  show ?thesis
  proof (cases "getDisplayMedia p")
    case (Inl e)
    with has show ?thesis
      by (simp add: startRecording_def startRecording_begin_def startRecording_acquire_def
          catch_fields Let_def)
  next
    case (Inr ds)
    obtain cs w2 where c: "combine p ds (startRecording_reset w) = (cs, w2)"
      by (cases "combine p ds (startRecording_reset w)") auto
    show ?thesis
    proof (cases "choose_mimeType p")
      case (Inl e)
      with has Inr c show ?thesis
        by (simp add: startRecording_def startRecording_begin_def startRecording_acquire_def
            catch_fields Let_def)
    next
      case m: (Inr m)
      show ?thesis
      proof (cases "getVideoTracks ds = []")
        case True
        with has Inr c m show ?thesis
          by (simp add: startRecording_def startRecording_begin_def startRecording_acquire_def
              new_MediaRecorder_def catch_fields Let_def)
      next
        case False
        from start_success_fields(2) [OF has Inr False m c] has Inr m False
        show ?thesis by simp
      qed
    qed
  qed
qed

section \<open>The microphone is optional\<close>

text \<open>
  Claim C3. Whether and with which message \<^verbatim>\<open>startRecording\<close> fails does not depend
  on what \<^verbatim>\<open>getUserMedia\<close> answers. When the screen stream has been obtained (with
  its video track) and one of the two MIME types is supported, a rejected microphone
  request leaves a session that is recording, without error, on the screen stream itself:
  the \<^verbatim>\<open>stream\<close> cell and the encoder hold \<^verbatim>\<open>displayStream\<close>.
\<close>

theorem microphone_failure_tolerated:
  "error (startRecording env (p\<lparr>getUserMedia := Inl micError\<rparr>) w) =
     error (startRecording env (p\<lparr>getUserMedia := answer\<rparr>) w)
   \<and> (hasGetDisplayMedia p \<and> getDisplayMedia p = Inr displayStream
        \<and> getVideoTracks displayStream \<noteq> []
        \<and> (isTypeSupported p vp9 \<or> isTypeSupported p webm) \<longrightarrow>
      isRecording (startRecording env (p\<lparr>getUserMedia := Inl micError\<rparr>) w)
      \<and> error (startRecording env (p\<lparr>getUserMedia := Inl micError\<rparr>) w) = []
      \<and> stream (startRecording env (p\<lparr>getUserMedia := Inl micError\<rparr>) w) = Some displayStream
      \<and> (\<exists>rc. the_recorder (startRecording env (p\<lparr>getUserMedia := Inl micError\<rparr>) w) = Some rc
            \<and> rec_state rc = Recording \<and> rec_stream rc = displayStream))"
proof -
  let ?p = "p\<lparr>getUserMedia := Inl micError\<rparr>"
  have same: "error (startRecording env ?p w) =
      error (startRecording env (p\<lparr>getUserMedia := answer\<rparr>) w)"
    by (simp add: start_error split: sum.splits)
  have ok: "isRecording (startRecording env ?p w)
      \<and> error (startRecording env ?p w) = []
      \<and> stream (startRecording env ?p w) = Some displayStream
      \<and> (\<exists>rc. the_recorder (startRecording env ?p w) = Some rc
            \<and> rec_state rc = Recording \<and> rec_stream rc = displayStream)"
    if has: "hasGetDisplayMedia p" and d: "getDisplayMedia p = Inr displayStream"
      and v: "getVideoTracks displayStream \<noteq> []"
      and m: "isTypeSupported p vp9 \<or> isTypeSupported p webm"
  proof -
    from m obtain mt where mt: "choose_mimeType ?p = Inr mt"
      by (auto simp add: choose_mimeType_def)
    have c: "combine ?p displayStream (startRecording_reset w) =
        (displayStream, startRecording_reset w)"
      by (simp add: combine_def)
    from has have has': "hasGetDisplayMedia ?p" by simp
    from d have d': "getDisplayMedia ?p = Inr displayStream" by simp
    note F = start_success_fields [OF has' d' v mt c, of env]
    from F show ?thesis by simp
  qed
  from same ok show ?thesis by blast
qed

theorem microphone_failure_tolerated_witness:
  "hasGetDisplayMedia chrome \<and> getDisplayMedia chrome = Inr screen
   \<and> getVideoTracks screen \<noteq> []
   \<and> (isTypeSupported chrome vp9 \<or> isTypeSupported chrome webm)
   \<and> isRecording (startRecording (render initial) no_microphone initial)
   \<and> error (startRecording (render initial) no_microphone initial) = []
   \<and> stream (startRecording (render initial) no_microphone initial) = Some screen"
proof -
  have h: "hasGetDisplayMedia chrome \<and> getDisplayMedia chrome = Inr screen
      \<and> getVideoTracks screen \<noteq> []
      \<and> (isTypeSupported chrome vp9 \<or> isTypeSupported chrome webm)"
    by (simp add: chrome_def screen_def getVideoTracks_def)
  note T = microphone_failure_tolerated [where env = "render initial" and p = chrome
      and micError = "Error ''Permission denied''" and w = initial
      and answer = "Inr microphone" and displayStream = screen]
  from T h show ?thesis
    unfolding no_microphone_def by blast
qed

section \<open>The encoder's format and stream\<close>






text \<open>
  Claim C8. When the start succeeds and the microphone stream was obtained, the stream
  the encoder is constructed on has the video tracks of the screen stream, then its
  audio tracks, then the audio tracks of the microphone stream, and nothing else; when
  the microphone request was rejected it is the screen stream itself. In both cases it
  is also the stream stored in the \<^verbatim>\<open>stream\<close> cell.
\<close>

theorem encoder_stream_composition:
  assumes "hasGetDisplayMedia p" and "getDisplayMedia p = Inr displayStream"
    and "getVideoTracks displayStream \<noteq> []"
    and "isTypeSupported p vp9 \<or> isTypeSupported p webm"
  shows "\<exists>rc. the_recorder (startRecording env p w) = Some rc
    \<and> stream (startRecording env p w) = Some (rec_stream rc)
    \<and> (case getUserMedia p of
         Inr micStream \<Rightarrow>
           tracks (rec_stream rc) =
             getVideoTracks displayStream @ getAudioTracks displayStream @ getAudioTracks micStream
       | Inl micError \<Rightarrow> rec_stream rc = displayStream)"
proof -
  from assms(4) obtain m where m: "choose_mimeType p = Inr m"
    by (auto simp add: choose_mimeType_def)
  obtain cs w2 where c: "combine p displayStream (startRecording_reset w) = (cs, w2)"
    by (cases "combine p displayStream (startRecording_reset w)") auto
  note F = start_success_fields [OF assms(1-3) m c, of env]
  have "case getUserMedia p of
         Inr micStream \<Rightarrow>
           tracks cs =
             getVideoTracks displayStream @ getAudioTracks displayStream @ getAudioTracks micStream
       | Inl micError \<Rightarrow> cs = displayStream"
    using c by (auto simp add: combine_def new_MediaStream_def Let_def split: sum.splits)
  with F(3,4) show ?thesis by (simp split: sum.splits)
qed

lemma chrome_facts:
  "hasGetDisplayMedia chrome" "getDisplayMedia chrome = Inr screen"
  "getUserMedia chrome = Inr microphone"
  "getVideoTracks screen = [\<lparr>track_id = 1, kind = Video\<rparr>]"
  "getAudioTracks screen = [\<lparr>track_id = 2, kind = Audio\<rparr>]"
  "getAudioTracks microphone = [\<lparr>track_id = 3, kind = Audio\<rparr>]"
  "isTypeSupported chrome vp9" "choose_mimeType chrome = Inr vp9"
  by (simp_all add: chrome_def screen_def microphone_def getVideoTracks_def getAudioTracks_def
      choose_mimeType_def)


theorem encoder_stream_composition_witness:
  "hasGetDisplayMedia chrome \<and> getDisplayMedia chrome = Inr screen
   \<and> getVideoTracks screen \<noteq> [] \<and> (isTypeSupported chrome vp9 \<or> isTypeSupported chrome webm)
   \<and> (\<exists>rc. the_recorder running = Some rc \<and> stream running = Some (rec_stream rc)
        \<and> tracks (rec_stream rc) =
            [\<lparr>track_id = 1, kind = Video\<rparr>, \<lparr>track_id = 2, kind = Audio\<rparr>,
             \<lparr>track_id = 3, kind = Audio\<rparr>])
   \<and> hasGetDisplayMedia no_microphone \<and> getDisplayMedia no_microphone = Inr screen
   \<and> (isTypeSupported no_microphone vp9 \<or> isTypeSupported no_microphone webm)
   \<and> (\<exists>rc. the_recorder (startRecording (render initial) no_microphone initial) = Some rc
        \<and> rec_stream rc = screen)"
proof -
  have a: "hasGetDisplayMedia chrome" "getDisplayMedia chrome = Inr screen"
    "getVideoTracks screen \<noteq> []" "isTypeSupported chrome vp9 \<or> isTypeSupported chrome webm"
    by (simp_all add: chrome_facts)
  have b: "hasGetDisplayMedia no_microphone" "getDisplayMedia no_microphone = Inr screen"
    "isTypeSupported no_microphone vp9 \<or> isTypeSupported no_microphone webm"
    by (simp_all add: no_microphone_def chrome_facts)
  from encoder_stream_composition [OF a, of "render initial" initial]
  have c: "\<exists>rc. the_recorder running = Some rc \<and> stream running = Some (rec_stream rc)
        \<and> tracks (rec_stream rc) =
            [\<lparr>track_id = 1, kind = Video\<rparr>, \<lparr>track_id = 2, kind = Audio\<rparr>,
             \<lparr>track_id = 3, kind = Audio\<rparr>]"
    by (simp add: running_def [symmetric] chrome_facts)
  from encoder_stream_composition [OF b(1,2) a(3) b(3), of "render initial" initial]
  have d: "\<exists>rc. the_recorder (startRecording (render initial) no_microphone initial) = Some rc
        \<and> rec_stream rc = screen"
    by (auto simp add: no_microphone_def)
  from a b c d show ?thesis by blast
qed

section \<open>Upload and retrieval\<close>

lemma post_created:
  assumes "post_recordings req srv = (resp, srv')" and "http_status resp = 201"
  shows "\<exists>content. video req = Some content \<and> db_up srv
    \<and> auto_increment srv \<notin> set (map row_id (recordings srv))
    \<and> resp = \<lparr>http_status = 201,
                http_body = Uploaded ''File uploaded successfully!'' (auto_increment srv)\<rparr>
    \<and> srv' = srv\<lparr>uploads := (uploads srv)(multer_filename req \<mapsto> content),
         recordings := recordings srv @
           [\<lparr>row_id = auto_increment srv, filename = multer_filename req,
             size_col = length content, created_at = current_timestamp req,
             updated_at = current_timestamp req\<rparr>],
         auto_increment := auto_increment srv + 1\<rparr>"
proof (cases "video req")
  case None
  with assms show ?thesis by (auto simp add: post_recordings_def)
next
  case (Some content)
  show ?thesis
  proof (cases "length content > fileSize_limit")
    case True
    with Some assms show ?thesis by (auto simp add: post_recordings_def)
  next
    case small: False
    show ?thesis
    proof (cases "\<not> db_up srv \<or> auto_increment srv \<in> set (map row_id (recordings srv))")
      case True
      with Some small assms show ?thesis
        by (auto simp add: post_recordings_def db_insert_def Let_def)
    next
      case False
      with Some small assms show ?thesis
        by (auto simp add: post_recordings_def db_insert_def Let_def)
    qed
  qed
qed

text \<open>
  Claim C6. When \<^verbatim>\<open>POST /api/recordings\<close> answers 201 to the upload of an artifact,
  the answer carries an id; \<^verbatim>\<open>GET /api/recordings/:id\<close> with that id then answers 200
  with a \<^verbatim>\<open>video/webm\<close> stream of the artifact's bytes, so of its size, and
  \<^verbatim>\<open>GET /api/recordings\<close> answers 200 with a list that has a row of that id whose
  \<^verbatim>\<open>size\<close> is the artifact's size.
\<close>

theorem upload_round_trip:
  assumes "video req = Some (blob_data artifact)"
    and "post_recordings req srv = (resp, srv')"
    and "http_status resp = 201"
  shows "\<exists>msg recordingId content rows.
      http_body resp = Uploaded msg recordingId
    \<and> get_recording recordingId srv' =
        \<lparr>http_status = 200, http_body = Stream ''video/webm'' content\<rparr>
    \<and> content = blob_data artifact
    \<and> length content = blob_size artifact
    \<and> get_recordings srv' = \<lparr>http_status = 200, http_body = Rows rows\<rparr>
    \<and> (\<exists>row \<in> set rows. row_id row = recordingId \<and> size_col row = blob_size artifact)"
proof -
  let ?id = "auto_increment srv"
  let ?row = "\<lparr>row_id = ?id, filename = multer_filename req,
             size_col = length (blob_data artifact), created_at = current_timestamp req,
             updated_at = current_timestamp req\<rparr>"
  from post_created [OF assms(2,3)] assms(1)
  have up: "db_up srv" and fresh: "?id \<notin> set (map row_id (recordings srv))"
    and resp: "resp = \<lparr>http_status = 201,
                http_body = Uploaded ''File uploaded successfully!'' ?id\<rparr>"
    and srv': "srv' = srv\<lparr>uploads := (uploads srv)(multer_filename req \<mapsto> blob_data artifact),
         recordings := recordings srv @ [?row], auto_increment := ?id + 1\<rparr>"
    by auto
  from fresh have none: "filter (\<lambda>r. row_id r = ?id) (recordings srv) = []"
    by (force simp add: filter_empty_conv)
  have get: "get_recording ?id srv' =
      \<lparr>http_status = 200, http_body = Stream ''video/webm'' (blob_data artifact)\<rparr>"
    using up by (simp add: get_recording_def srv' none)
  have list: "get_recordings srv' =
      \<lparr>http_status = 200, http_body = Rows (rev (sort_key created_at (recordings srv @ [?row])))\<rparr>"
    using up by (simp add: get_recordings_def srv')
  have mem: "?row \<in> set (rev (sort_key created_at (recordings srv @ [?row])))"
    by simp
  have row: "row_id ?row = ?id \<and> size_col ?row = blob_size artifact"
    by (simp add: blob_size_def)
  from resp get list mem row show ?thesis
    by (auto simp add: blob_size_def)
qed

theorem upload_round_trip_witness:
  "video upload_of_chunk = Some (blob_data chunk)
   \<and> http_status (fst (post_recordings upload_of_chunk fresh_server)) = 201
   \<and> (\<exists>msg recordingId content rows.
      http_body (fst (post_recordings upload_of_chunk fresh_server)) = Uploaded msg recordingId
    \<and> get_recording recordingId (snd (post_recordings upload_of_chunk fresh_server)) =
        \<lparr>http_status = 200, http_body = Stream ''video/webm'' content\<rparr>
    \<and> length content = 3 \<and> blob_size chunk = 3
    \<and> get_recordings (snd (post_recordings upload_of_chunk fresh_server)) =
        \<lparr>http_status = 200, http_body = Rows rows\<rparr>
    \<and> (\<exists>row \<in> set rows. row_id row = recordingId \<and> size_col row = 3))"
proof -
  have a: "video upload_of_chunk = Some (blob_data chunk)"
    by (simp add: upload_of_chunk_def)
  have b: "post_recordings upload_of_chunk fresh_server =
      (fst (post_recordings upload_of_chunk fresh_server),
       snd (post_recordings upload_of_chunk fresh_server))"
    by simp
  have c: "http_status (fst (post_recordings upload_of_chunk fresh_server)) = 201"
    by (simp add: post_recordings_def db_insert_def upload_of_chunk_def fresh_server_def
        chunk_def fileSize_limit_def Let_def)
  have s: "blob_size chunk = 3"
    by (simp add: blob_size_def chunk_def)
  from upload_round_trip [OF a b c] a c s show ?thesis
    by auto
qed

section \<open>Revocation of the screen share\<close>

lemma onended_stale: "\<not> isRecording env \<Longrightarrow> onended env w = w"
  by (simp add: onended_def)

lemma commit_same: "commit w w = w"
  by (simp add: commit_def)

lemma settle_same:
  "the_recorder w = Some rc \<Longrightarrow> rec_state rc = Recording \<Longrightarrow> settle w w = w"
  by (simp add: settle_def commit_same the_recorder_def split: option.splits)

text \<open>
  Claim C4 says that a session whose screen share is revoked leaves the recording
  state. In the session started from the initial render, the \<^verbatim>\<open>onended\<close> handler was
  created by a render whose \<^verbatim>\<open>isRecording\<close> is false, and that is the value it tests
  when the screen's video track ends: it does not call \<^verbatim>\<open>stopRecording\<close>. The world
  is unchanged, \<^verbatim>\<open>isRecording\<close> is still true, the encoder is still recording and no
  track has been stopped.
\<close>

theorem revocation_does_not_stop:
  "\<not> isRecording (render initial)
   \<and> isRecording running
   \<and> onended (render initial) running = running
   \<and> exit_revoked (render initial) running = running
   \<and> isRecording (exit_revoked (render initial) running)
   \<and> encoder_active (render running) (exit_revoked (render initial) running)
   \<and> stop_calls (exit_revoked (render initial) running) 1 = 0"
proof -
  have a: "\<not> isRecording (render initial)"
    by (simp add: render_def initial_def)
  have b: "isRecording running"
    by (simp add: running_eq)
  have c: "onended (render initial) running = running"
    using a by (rule onended_stale)
  have "the_recorder running = Some \<lparr>rec_state = Recording,
       rec_stream = \<lparr>stream_id = 0, tracks = [\<lparr>track_id = 1, kind = Video\<rparr>,
         \<lparr>track_id = 2, kind = Audio\<rparr>, \<lparr>track_id = 3, kind = Audio\<rparr>]\<rparr>,
       rec_mimeType = ''video/webm;codecs=vp9'', rec_chunks = [],
       rec_start_calls = 1, rec_stop_calls = 0\<rparr>"
    by (simp add: the_recorder_def running_eq)
  then have "settle running running = running"
    by (rule settle_same) simp
  then have d: "exit_revoked (render initial) running = running"
    by (simp add: exit_revoked_def c)
  have e: "encoder_active (render running) running"
    by (simp add: encoder_active_def render_def running_eq)
  have f: "stop_calls running 1 = 0"
    by (simp add: running_eq)
  from a b c d e f show ?thesis by simp
qed

section \<open>Releasing the device tracks\<close>

lemma stop_calls_stop_tracks:
  "stop_calls (stop_tracks ts w) i = stop_calls w i + count_list (map track_id ts) i"
  by (simp add: stop_tracks_eq)

lemma count_track: "t \<in> set ts \<Longrightarrow> 0 < count_list (map track_id ts) (track_id t)"
  by (induction ts) auto

lemma stop_calls_stopRecording:
  "stop_calls (stopRecording env w) i =
     stop_calls w i +
     (case stream env of None \<Rightarrow> 0 | Some s \<Rightarrow> count_list (map track_id (getTracks s)) i)"
  by (simp add: stopRecording_def recorder_stop_def stop_calls_stop_tracks Let_def
      split: option.splits)

lemma stop_calls_onstop: "stop_calls w i \<le> stop_calls (onstop r w) i"
  by (simp add: onstop_def stop_calls_stop_tracks Let_def split: option.splits)

lemma stop_calls_cleanup: "stop_calls w i \<le> stop_calls (stream_cleanup env w) i"
  by (simp add: stream_cleanup_def stop_calls_stop_tracks split: option.splits)

lemma stop_calls_commit: "stop_calls w i \<le> stop_calls (commit prev w) i"
  by (simp add: commit_def stop_calls_cleanup)

lemma recorders_commit: "recorders (commit prev w) = recorders w"
  by (simp add: commit_def stream_cleanup_def stop_tracks_eq split: option.splits)

lemma stop_calls_settle: "stop_calls w i \<le> stop_calls (settle prev w) i"
proof -
  let ?w1 = "commit prev w"
  have a: "stop_calls w i \<le> stop_calls ?w1 i"
    by (rule stop_calls_commit)
  have "stop_calls ?w1 i \<le> stop_calls (commit ?w1 (onstop r ?w1)) i" for r
    using stop_calls_onstop [of ?w1 i r] stop_calls_commit [of "onstop r ?w1" i ?w1]
    by (rule order_trans)
  then have b: "stop_calls ?w1 i \<le> stop_calls (settle prev w) i"
    unfolding settle_def Let_def
    by (simp split: option.splits)
  from a b show ?thesis by (rule order_trans)
qed

lemma settle_fires:
  assumes "mediaRecorder prev = Some r"
    and "recorders prev r = Some rb" and "rec_state rb = Recording"
    and "recorders w r = Some ra" and "rec_state ra = Inactive"
  shows "settle prev w = commit (commit prev w) (onstop r (commit prev w))"
  using assms by (simp add: settle_def recorders_commit Let_def)

lemma onstop_stops:
  assumes "recorders w r = Some rc" and "t \<in> set (tracks (rec_stream rc))"
  shows "stop_calls w (track_id t) < stop_calls (onstop r w) (track_id t)"
  using count_track [OF assms(2)] assms(1)
  by (simp add: onstop_def stop_calls_stop_tracks getTracks_def Let_def)

lemma recorders_stopRecording_inactive:
  assumes "recorders w r = Some rc" and "rec_state rc \<noteq> Recording"
  shows "recorders (stopRecording env w) r = Some rc"
proof (cases "mediaRecorder env")
  case None
  with assms show ?thesis
    by (simp add: stopRecording_def stop_tracks_eq Let_def split: option.splits)
next
  case (Some r')
  show ?thesis
  proof (cases "r' = r")
    case True
    with Some assms show ?thesis
      by (simp add: stopRecording_def stop_tracks_eq Let_def split: option.splits)
  next
    case False
    with Some assms show ?thesis
      by (simp add: stopRecording_def recorder_stop_def stop_tracks_eq Let_def
          split: option.splits)
  qed
qed

lemma exit_error_stops:
  assumes "mediaRecorder w = Some r" and "recorders w r = Some rc"
    and "rec_state rc = Recording" and "t \<in> set (tracks (rec_stream rc))"
  shows "stop_calls w (track_id t) < stop_calls (exit_error env msg w) (track_id t)"
proof -
  let ?ra = "rc\<lparr>rec_state := Inactive\<rparr>"
  let ?wf = "recorder_fail w"
  let ?we = "onerror env msg ?wf"
  let ?w1 = "commit w ?we"
  have wf: "?wf = w\<lparr>recorders := (recorders w)(r \<mapsto> ?ra)\<rparr>"
    using assms(1,2) by (simp add: recorder_fail_def)
  have "recorders (?wf\<lparr>error := ''Recording error: '' @ msg\<rparr>) r = Some ?ra"
    by (simp add: wf)
  then have ra: "recorders ?we r = Some ?ra"
    unfolding onerror_def by (rule recorders_stopRecording_inactive) simp
  have "stop_calls w (track_id t) \<le> stop_calls ?we (track_id t)"
    by (simp add: onerror_def stop_calls_stopRecording wf)
  also have "\<dots> \<le> stop_calls ?w1 (track_id t)"
    by (rule stop_calls_commit)
  also have "\<dots> < stop_calls (onstop r ?w1) (track_id t)"
  proof (rule onstop_stops)
    show "recorders ?w1 r = Some ?ra" by (simp add: recorders_commit ra)
    show "t \<in> set (tracks (rec_stream ?ra))" using assms(4) by simp
  qed
  also have "\<dots> \<le> stop_calls (commit ?w1 (onstop r ?w1)) (track_id t)"
    by (rule stop_calls_commit)
  also have "commit ?w1 (onstop r ?w1) = exit_error env msg w"
    unfolding exit_error_def
    by (rule settle_fires [OF assms(1,2,3) ra, symmetric]) simp
  finally show ?thesis .
qed

lemma stopRecording_stops:
  assumes "stream env = Some s" and "t \<in> set (tracks s)"
  shows "stop_calls w (track_id t) < stop_calls (stopRecording env w) (track_id t)"
  using count_track [OF assms(2)] assms(1)
  by (simp add: stop_calls_stopRecording getTracks_def)

lemma track_kinds:
  "set (tracks s) = set (getVideoTracks s) \<union> set (getAudioTracks s)"
proof -
  have "kind t = Video \<or> kind t = Audio" for t :: track
    by (cases "kind t") simp_all
  then show ?thesis
    by (auto simp add: getVideoTracks_def getAudioTracks_def)
qed

lemma acquired_in_combined:
  assumes "hasGetDisplayMedia p" and "getDisplayMedia p = Inr ds"
    and "case getUserMedia p of Inl micError \<Rightarrow> True | Inr micStream \<Rightarrow> getVideoTracks micStream = []"
    and "combine p ds w = (cs, w2)"
    and "t \<in> set (acquired p)"
  shows "t \<in> set (tracks cs)"
proof (cases "getUserMedia p")
  case (Inl e)
  with assms show ?thesis
    by (simp add: acquired_def combine_def getTracks_def)
next
  case (Inr ms)
  with assms(3) have "set (tracks ms) = set (getAudioTracks ms)"
    by (simp add: track_kinds)
  moreover from Inr assms(4) have "tracks cs = getVideoTracks ds @ getAudioTracks ds @ getAudioTracks ms"
    by (auto simp add: combine_def new_MediaStream_def Let_def)
  moreover from Inr assms(1,2,5) have "t \<in> set (tracks ds) \<union> set (tracks ms)"
    by (simp add: acquired_def getTracks_def)
  ultimately show ?thesis
    by (auto simp add: track_kinds [of ds])
qed

text \<open>
  Claim C2, as the code has it. After a successful start (the microphone stream, when
  there is one, having audio tracks only), every acquired track receives at least one
  \<^verbatim>\<open>stop()\<close> call on each of these exits: when the session is stopped by hand while
  the \<^verbatim>\<open>stream\<close> cell still holds the session's stream; when the timer reaches 180;
  and when the session's encoder, recording until then, fails, whatever closure its
  \<^verbatim>\<open>onerror\<close> handler reads. It is not called exactly once: \<^verbatim>\<open>stopRecording\<close>, the
  stream effect's cleanup and \<^verbatim>\<open>recorder.onstop\<close> each call it.
\<close>

theorem acquired_tracks_stopped:
  assumes "hasGetDisplayMedia p" and "getDisplayMedia p = Inr displayStream"
    and "getVideoTracks displayStream \<noteq> []"
    and "isTypeSupported p vp9 \<or> isTypeSupported p webm"
    and "case getUserMedia p of Inl micError \<Rightarrow> True | Inr micStream \<Rightarrow> getVideoTracks micStream = []"
    and "t \<in> set (acquired p)"
  shows "(stream w = stream (startRecording env0 p w0) \<longrightarrow>
           stop_calls w (track_id t) < stop_calls (exit_manual w) (track_id t))
    \<and> (recordingTime w + 1 \<ge> 180 \<longrightarrow>
           stop_calls w (track_id t)
             < stop_calls (exit_timeout (render (startRecording env0 p w0)) w) (track_id t))
    \<and> (encoder_active (render w) w
        \<and> map_option rec_stream (the_recorder w) = stream (startRecording env0 p w0) \<longrightarrow>
           stop_calls w (track_id t) < stop_calls (exit_error env msg w) (track_id t))"
proof -
  let ?w1 = "startRecording env0 p w0"
  from assms(4) obtain m where m: "choose_mimeType p = Inr m"
    by (auto simp add: choose_mimeType_def)
  obtain cs w2 where c: "combine p displayStream (startRecording_reset w0) = (cs, w2)"
    by (cases "combine p displayStream (startRecording_reset w0)") auto
  have s1: "stream ?w1 = Some cs"
    by (rule start_success_fields(3) [OF assms(1-3) m c])
  have t: "t \<in> set (tracks cs)"
    by (rule acquired_in_combined [OF assms(1,2,5) c assms(6)])
  have manual: "stop_calls w (track_id t) < stop_calls (exit_manual w) (track_id t)"
    if "stream w = stream ?w1"
  proof -
    from that s1 have "stream (render w) = Some cs"
      by (simp add: render_def)
    from stopRecording_stops [OF this t]
    have "stop_calls w (track_id t) < stop_calls (stopRecording (render w) w) (track_id t)" .
    also have "\<dots> \<le> stop_calls (exit_manual w) (track_id t)"
      unfolding exit_manual_def by (rule stop_calls_settle)
    finally show ?thesis .
  qed
  have timeout: "stop_calls w (track_id t) < stop_calls (exit_timeout (render ?w1) w) (track_id t)"
    if "recordingTime w + 1 \<ge> 180"
  proof -
    from s1 have "stream (render ?w1) = Some cs"
      by (simp add: render_def)
    from stopRecording_stops [OF this t]
    have "stop_calls w (track_id t) < stop_calls (stopRecording (render ?w1) w) (track_id t)" .
    also from that have "\<dots> = stop_calls (tick (render ?w1) w) (track_id t)"
      by (simp add: tick_def MAX_RECORDING_TIME_def Let_def)
    also have "\<dots> \<le> stop_calls (exit_timeout (render ?w1) w) (track_id t)"
      unfolding exit_timeout_def by (rule stop_calls_settle)
    finally show ?thesis .
  qed
  have failure: "stop_calls w (track_id t) < stop_calls (exit_error env msg w) (track_id t)"
    if act: "encoder_active (render w) w"
      and str: "map_option rec_stream (the_recorder w) = stream ?w1"
  proof -
    from act obtain r rc where r: "mediaRecorder w = Some r" and rc: "recorders w r = Some rc"
      and st: "rec_state rc = Recording"
      by (auto simp add: encoder_active_def render_def split: option.splits)
    from str r rc s1 have "rec_stream rc = cs"
      by (simp add: the_recorder_def)
    with t have "t \<in> set (tracks (rec_stream rc))" by simp
    from exit_error_stops [OF r rc st this] show ?thesis .
  qed
  from manual timeout failure show ?thesis by blast
qed

lemmas exit_defs = exit_manual_def exit_timeout_def exit_error_def settle_def commit_def
  recorder_fail_def stopRecording_def
  recorder_stop_def stream_cleanup_def onstop_def onerror_def tick_def render_def
  stop_tracks_eq getTracks_def new_Blob_def MAX_RECORDING_TIME_def Let_def

theorem stopped_once_counterexample:
  "\<lparr>track_id = 1, kind = Video\<rparr> \<in> set (acquired chrome)
   \<and> stop_calls running 1 = 0
   \<and> stop_calls (exit_manual running) 1 = 3"
  by (simp add: acquired_def chrome_facts getTracks_def screen_def running_eq exit_defs)

theorem acquired_tracks_stopped_witness:
  "hasGetDisplayMedia chrome \<and> getDisplayMedia chrome = Inr screen
   \<and> getVideoTracks screen \<noteq> []
   \<and> (isTypeSupported chrome vp9 \<or> isTypeSupported chrome webm)
   \<and> getVideoTracks microphone = []
   \<and> \<lparr>track_id = 3, kind = Audio\<rparr> \<in> set (acquired chrome)
   \<and> stream running = stream (startRecording (render initial) chrome initial)
   \<and> stop_calls running 3 < stop_calls (exit_manual running) 3
   \<and> recordingTime (running\<lparr>recordingTime := 179\<rparr>) + 1 \<ge> 180
   \<and> stop_calls (running\<lparr>recordingTime := 179\<rparr>) 3
       < stop_calls (exit_timeout (render running) (running\<lparr>recordingTime := 179\<rparr>)) 3
   \<and> encoder_active (render running) running
   \<and> map_option rec_stream (the_recorder running) =
       stream (startRecording (render initial) chrome initial)
   \<and> stop_calls running 3 < stop_calls (exit_error (render initial) ''boom'' running) 3"
proof -
  have a: "hasGetDisplayMedia chrome" "getDisplayMedia chrome = Inr screen"
    "getVideoTracks screen \<noteq> []" "isTypeSupported chrome vp9 \<or> isTypeSupported chrome webm"
    by (simp_all add: chrome_facts)
  have mic: "getVideoTracks microphone = []"
    by (simp add: getVideoTracks_def microphone_def)
  then have b: "case getUserMedia chrome of Inl micError \<Rightarrow> True
      | Inr micStream \<Rightarrow> getVideoTracks micStream = []"
    by (simp add: chrome_facts)
  have t: "\<lparr>track_id = 3, kind = Audio\<rparr> \<in> set (acquired chrome)"
    by (simp add: acquired_def chrome_facts getTracks_def microphone_def)
  have s: "stream running = stream (startRecording (render initial) chrome initial)"
    by (simp add: running_def)
  have h: "recordingTime (running\<lparr>recordingTime := 179\<rparr>) + 1 \<ge> 180"
    by simp
  have e: "encoder_active (render running) running"
    by (simp add: encoder_active_def render_def running_eq)
  have "map_option rec_stream (the_recorder running) = stream running"
    by (simp add: the_recorder_def running_eq)
  with s have f: "map_option rec_stream (the_recorder running) =
      stream (startRecording (render initial) chrome initial)"
    by simp
  note M = acquired_tracks_stopped [OF a b t, where w = running and ?env0.0 = "render initial"
      and ?w0.0 = initial and env = "render initial" and msg = "''boom''"]
  note T = acquired_tracks_stopped [OF a b t, where w = "running\<lparr>recordingTime := 179\<rparr>"
      and ?env0.0 = "render initial" and ?w0.0 = initial]
  from M s have m: "stop_calls running 3 < stop_calls (exit_manual running) 3"
    by simp
  from M e f have y: "stop_calls running 3 < stop_calls (exit_error (render initial) ''boom'' running) 3"
    by simp
  from T h have "stop_calls (running\<lparr>recordingTime := 179\<rparr>) 3
       < stop_calls (exit_timeout (render (startRecording (render initial) chrome initial))
           (running\<lparr>recordingTime := 179\<rparr>)) 3"
    by simp
  then have x: "stop_calls (running\<lparr>recordingTime := 179\<rparr>) 3
       < stop_calls (exit_timeout (render running) (running\<lparr>recordingTime := 179\<rparr>)) 3"
    by (simp only: running_def)
  from a mic t s m h x e f y show ?thesis by blast
qed

text \<open>
  A start that fails on the MIME type, after the acquisition, runs the \<^verbatim>\<open>catch\<close>
  block with the \<^verbatim>\<open>stream\<close> of the render that created \<^verbatim>\<open>startRecording\<close>, which
  is null: the tracks just acquired are not stopped, and the \<^verbatim>\<open>stream\<close> cell keeps
  them. On an encoder error the tracks are stopped by \<^verbatim>\<open>recorder.onstop\<close> and by the
  cleanup that follows it.
\<close>

lemma failed_start_leaves_tracks_open:
  "\<lparr>track_id = 1, kind = Video\<rparr> \<in> set (acquired no_webm)
   \<and> stop_calls (startRecording (render initial) no_webm initial) 1 = 0
   \<and> stream (startRecording (render initial) no_webm initial) \<noteq> None"
  by (simp add: initial_def render_def acquired_def no_webm_def chrome_def screen_def
      microphone_def start_defs)

lemma encoder_error_exit:
  "stop_calls (exit_error (render initial) ''boom'' running) 1 = 2
   \<and> \<not> isRecording (exit_error (render initial) ''boom'' running)
   \<and> \<not> encoder_active (render running) (exit_error (render initial) ''boom'' running)"
  by (simp add: running_eq exit_defs initial_def encoder_active_def)

end
